theory Spec2Isabelle
  imports Complex_Main "HOL-Library.Multiset"
begin

section \<open>Data model of the Litecoin handler\<close>

text \<open>
  The development embeds \<^verbatim>\<open>src/handlers/LTC/LTCHandler.ts\<close>. Promises that
  can reject are values of \<open>error + 'a\<close> (\<open>Inl\<close> the rejection), the closure
  variables \<^verbatim>\<open>txHash\<close> and \<^verbatim>\<open>errored\<close> of \<^verbatim>\<open>sendSats\<close> are
  fields of an explicit state, and the interleaving of the asynchronous lifecycle task
  with the confirmation monitor is a schedule of atomic steps: JavaScript runs each
  continuation between two \<^verbatim>\<open>await\<close>s to completion.
\<close>

text \<open>
  Modelled from the spec: the errors of section 7. A provider error is the failure of one
  endpoint, an aggregated error lists the failures of a whole fallback sequence in
  endpoint order, a retry-exhausted error wraps the last failure of a retried operation,
  and a build error is the external builder's refusal. \<open>NoAttemptMade\<close> stands for
  a retry that was allowed no attempt at all.
\<close>

datatype error =
    ProviderError string
  | AggregatedError "error list"
  | RetryExhaustedError error
  | BuildError string
  | NoAttemptMade

text \<open>
  Modelled from the spec: the type \<^verbatim>\<open>UTXO\<close> is declared in \<^verbatim>\<open>lib/utxo\<close>, which
  is not among the sources. Section 3: a transaction hash, an output index, an integer
  amount in the smallest denomination unit and a confirmation count (the opaque script
  is left out). The handler reads \<^verbatim>\<open>amount\<close> and \<^verbatim>\<open>confirmations\<close>.
\<close>

record UTXO =
  utxo_txHash :: string
  vOut :: nat
  amount :: int
  confirmations :: nat

text \<open>\<^verbatim>\<open>TxOptions extends BalanceOptions extends AddressOptions\<close>: every field is optional.\<close>

record TxOptions =
  opt_address :: "string option"
  opt_confirmations :: "nat option"
  fee :: "int option"
  subtractFee :: "bool option"

text \<open>
  \<^verbatim>\<open>Asset\<close> is declared in \<^verbatim>\<open>types/types\<close>, which is not among the sources.
  The handler only asks whether an asset is a string, and reads it if it is; every other
  JavaScript value is \<open>AssetOther\<close>.
\<close>

datatype Asset = AssetString string | AssetOther

text \<open>The loaded key, \<^verbatim>\<open>{ getAddress: () => string }\<close>, and the handler's two fields.\<close>

record privateKey =
  getAddress :: string

record LTCHandler =
  privateKey :: privateKey
  testnet :: bool

text \<open>
  A provider endpoint is a zero-argument asynchronous capability. Its answer may differ
  from one invocation to the next, so it is a function of a logical clock that counts the
  provider invocations made so far.
\<close>

type_synonym 'a endpoint = "nat \<Rightarrow> error + 'a"

text \<open>
  What the external builder returns is read through \<^verbatim>\<open>toHex()\<close> only; a request
  holds the seven arguments \<^verbatim>\<open>sendSats\<close> passes to \<^verbatim>\<open>buildUTXO\<close>.
\<close>

datatype built = Built (toHex: string)

record build_request =
  req_testnet :: bool
  req_privateKey :: privateKey
  req_changeAddress :: string
  req_to :: string
  req_value :: rat
  req_utxos :: "UTXO list"
  req_options :: "TxOptions option"

text \<open>
  The collaborators the handler imports: the Sochain API (called with the network name)
  and the external transaction builder \<^verbatim>\<open>BitgoUTXOLib.buildUTXO\<close>. They are
  parameters of every operation.
\<close>

record services =
  Sochain_fetchUTXO :: "string \<Rightarrow> string \<Rightarrow> nat \<Rightarrow> UTXO endpoint"
  Sochain_fetchUTXOs :: "string \<Rightarrow> string \<Rightarrow> nat \<Rightarrow> UTXO list endpoint"
  Sochain_fetchTXs :: "string \<Rightarrow> string \<Rightarrow> nat \<Rightarrow> UTXO list endpoint"
  Sochain_broadcastTransaction :: "string \<Rightarrow> string \<Rightarrow> string endpoint"
  BitgoUTXOLib_buildUTXO :: "build_request \<Rightarrow> error + built"

section \<open>Fallback dispatch and bounded retry\<close>

text \<open>
  Modelled from the spec: the loop of \<^verbatim>\<open>fallback\<close> of \<^verbatim>\<open>lib/retry\<close>, which is
  not among the sources. Section 4.1: the endpoints are invoked strictly in order, one at a time; the
  result of the first endpoint that succeeds is returned and no later endpoint is
  invoked; a failure is recorded and the next endpoint tried; when every endpoint fails
  the dispatch fails with the aggregated error holding all recorded failures in endpoint
  order. The clock advances by one for every endpoint invoked.
\<close>

fun fallback_from :: "error list \<Rightarrow> 'a endpoint list \<Rightarrow> nat \<Rightarrow> (error + 'a) \<times> nat" where
  "fallback_from errs [] t = (Inl (AggregatedError (rev errs)), t)"
| "fallback_from errs (e # es) t =
     (case e t of
        Inr v \<Rightarrow> (Inr v, Suc t)
      | Inl err \<Rightarrow> fallback_from (err # errs) es (Suc t))"

text \<open>
  Modelled from the spec: \<^verbatim>\<open>fallback\<close> of \<^verbatim>\<open>lib/retry\<close>, section 4.1 as above:
  the dispatch starts with no failure recorded.
\<close>

definition fallback :: "'a endpoint list \<Rightarrow> nat \<Rightarrow> (error + 'a) \<times> nat" where
  "fallback endpoints t = fallback_from [] endpoints t"

text \<open>
  Modelled from the spec: the loop of \<^verbatim>\<open>retryNTimes\<close> of \<^verbatim>\<open>lib/retry\<close>,
  which is not among the sources. Section 4.2: the operation is invoked up to \<open>maxAttempts\<close> times, stopping
  at the first success, with no delay in between; when the final attempt fails the retry
  fails with the exhaustion error wrapping the last underlying error only. The spec
  requires \<open>maxAttempts\<close> to be positive; with no attempt allowed the model fails
  without invoking the operation.
\<close>

fun retry_from :: "error \<Rightarrow> (nat \<Rightarrow> (error + 'a) \<times> nat) \<Rightarrow> nat \<Rightarrow> nat \<Rightarrow> (error + 'a) \<times> nat" where
  "retry_from lastErr operation 0 t = (Inl lastErr, t)"
| "retry_from lastErr operation (Suc n) t =
     (case operation t of
        (Inr v, t') \<Rightarrow> (Inr v, t')
      | (Inl err, t') \<Rightarrow> retry_from (RetryExhaustedError err) operation n t')"

text \<open>
  Modelled from the spec: \<^verbatim>\<open>retryNTimes\<close> of \<^verbatim>\<open>lib/retry\<close>, section 4.2 as
  above: the retry starts with no attempt made.
\<close>

definition retryNTimes :: "(nat \<Rightarrow> (error + 'a) \<times> nat) \<Rightarrow> nat \<Rightarrow> nat \<Rightarrow> (error + 'a) \<times> nat" where
  "retryNTimes operation maxAttempts t = retry_from NoAttemptMade operation maxAttempts t"

section \<open>The handler's provider tables and static queries\<close>

definition network_name :: "bool \<Rightarrow> string" where
  "network_name tn = (if tn then ''LTCTEST'' else ''LTC'')"

definition apiFallbacks_fetchUTXO :: "services \<Rightarrow> bool \<Rightarrow> string \<Rightarrow> nat \<Rightarrow> UTXO endpoint list" where
  "apiFallbacks_fetchUTXO sv tn txh vout = [Sochain_fetchUTXO sv (network_name tn) txh vout]"

definition apiFallbacks_fetchUTXOs :: "services \<Rightarrow> bool \<Rightarrow> string \<Rightarrow> nat \<Rightarrow> UTXO list endpoint list" where
  "apiFallbacks_fetchUTXOs sv tn addr confs = [Sochain_fetchUTXOs sv (network_name tn) addr confs]"

definition apiFallbacks_fetchTXs :: "services \<Rightarrow> bool \<Rightarrow> string \<Rightarrow> nat \<Rightarrow> UTXO list endpoint list" where
  "apiFallbacks_fetchTXs sv tn addr confs = [Sochain_fetchTXs sv (network_name tn) addr confs]"

definition apiFallbacks_broadcastTransaction :: "services \<Rightarrow> bool \<Rightarrow> string \<Rightarrow> string endpoint list" where
  "apiFallbacks_broadcastTransaction sv tn hex = [Sochain_broadcastTransaction sv (network_name tn) hex]"

text \<open>
  \<^verbatim>\<open>LTCHandler.getUTXOs\<close>: the confirmation threshold defaults to 0 when the option
  is undefined. The options object always carries an address here.
\<close>

definition getUTXOs :: "services \<Rightarrow> bool \<Rightarrow> string \<Rightarrow> nat option \<Rightarrow> nat \<Rightarrow> (error + UTXO list) \<times> nat" where
  "getUTXOs sv tn addr confs t =
     (let confirmations = (case confs of Some c \<Rightarrow> c | None \<Rightarrow> 0);
          endpoints = apiFallbacks_fetchUTXOs sv tn addr confirmations
      in fallback endpoints t)"

definition getUTXO :: "services \<Rightarrow> bool \<Rightarrow> string \<Rightarrow> nat \<Rightarrow> nat \<Rightarrow> (error + UTXO) \<times> nat" where
  "getUTXO sv tn txh vout t = fallback (apiFallbacks_fetchUTXO sv tn txh vout) t"

definition getTransactions :: "services \<Rightarrow> bool \<Rightarrow> string \<Rightarrow> nat option \<Rightarrow> nat \<Rightarrow> (error + UTXO list) \<times> nat" where
  "getTransactions sv tn addr confs t =
     (let confirmations = (case confs of Some c \<Rightarrow> c | None \<Rightarrow> 0);
          endpoints = apiFallbacks_fetchTXs sv tn addr confirmations
      in fallback endpoints t)"

text \<open>The constructor: every network but \<^verbatim>\<open>"mainnet"\<close> is a test network.\<close>

definition newLTCHandler :: "privateKey \<Rightarrow> string \<Rightarrow> LTCHandler" where
  "newLTCHandler key network = \<lparr> privateKey = key, testnet = (network \<noteq> ''mainnet'') \<rparr>"

section \<open>Asset check, address and balance\<close>

text \<open>
  \<^verbatim>\<open>String.prototype.toUpperCase\<close>. Strings are sequences of ASCII characters here:
  the letters a to z are mapped to A to Z and every other character is kept. (Outside
  ASCII the JavaScript mapping does more; such strings are outside this model.)
\<close>

definition upper_char :: "char \<Rightarrow> char" where
  "upper_char c =
     (let n = (of_char c :: nat) in if 97 \<le> n \<and> n \<le> 122 then char_of (n - 32) else c)"

definition toUpperCase :: "string \<Rightarrow> string" where
  "toUpperCase s = map upper_char s"

text \<open>\<^verbatim>\<open>xs.indexOf(x)\<close>: the first position of \<open>x\<close>, or -1.\<close>

fun indexOf_from :: "int \<Rightarrow> 'a list \<Rightarrow> 'a \<Rightarrow> int" where
  "indexOf_from i [] x = -1"
| "indexOf_from i (y # ys) x = (if y = x then i else indexOf_from (i + 1) ys x)"

definition indexOf :: "'a list \<Rightarrow> 'a \<Rightarrow> int" where
  "indexOf xs x = indexOf_from 0 xs x"

definition handlesAsset :: "Asset \<Rightarrow> bool" where
  "handlesAsset asset =
     (case asset of
        AssetString s \<Rightarrow> indexOf [''LTC'', ''LITECOIN''] (toUpperCase s) \<noteq> -1
      | AssetOther \<Rightarrow> False)"

definition address :: "LTCHandler \<Rightarrow> Asset \<Rightarrow> string" where
  "address h asset = getAddress (privateKey h)"

text \<open>
  \<^verbatim>\<open>BigNumber\<close> values are exact decimals, embedded in the rationals. \<^verbatim>\<open>plus\<close>
  and \<^verbatim>\<open>times\<close> are exact; \<^verbatim>\<open>dividedBy\<close> rounds the quotient to the library's
  default of 20 decimal places, half away from zero. The divisor is never zero here.
\<close>

definition decimals :: nat where
  "decimals = 8"

definition round_half_up :: "rat \<Rightarrow> int" where
  "round_half_up q = (if 0 \<le> q then \<lfloor>q + 1 / 2\<rfloor> else - \<lfloor>- q + 1 / 2\<rfloor>)"

definition bn_plus :: "rat \<Rightarrow> rat \<Rightarrow> rat" where
  "bn_plus a b = a + b"

definition bn_times :: "rat \<Rightarrow> rat \<Rightarrow> rat" where
  "bn_times a b = a * b"

definition bn_dividedBy :: "rat \<Rightarrow> rat \<Rightarrow> rat" where
  "bn_dividedBy a b = of_int (round_half_up (a / b * 10 ^ 20)) / 10 ^ 20"

text \<open>\<^verbatim>\<open>BigNumber.isInteger\<close>: the value has no fractional part.\<close>

definition isInteger :: "rat \<Rightarrow> bool" where
  "isInteger q \<longleftrightarrow> of_int \<lfloor>q\<rfloor> = q"

text \<open>The \<^verbatim>\<open>reduce\<close> of \<^verbatim>\<open>getBalanceInSats\<close>, from \<^verbatim>\<open>new BigNumber(0)\<close>.\<close>

definition sumSats :: "UTXO list \<Rightarrow> rat" where
  "sumSats utxos = foldl (\<lambda>sum utxo. bn_plus sum (of_int (amount utxo))) 0 utxos"

text \<open>
  \<^verbatim>\<open>(options && options.address) || (await this.address(asset))\<close>: an address
  given in the options is used unless it is the empty string, which is falsy.
\<close>

definition balance_address :: "LTCHandler \<Rightarrow> Asset \<Rightarrow> TxOptions option \<Rightarrow> string" where
  "balance_address h asset options =
     (case options of
        None \<Rightarrow> address h asset
      | Some opts \<Rightarrow>
          (case opt_address opts of
             None \<Rightarrow> address h asset
           | Some a \<Rightarrow> if a \<noteq> [] then a else address h asset))"

definition options_confirmations :: "TxOptions option \<Rightarrow> nat option" where
  "options_confirmations options = (case options of None \<Rightarrow> None | Some opts \<Rightarrow> opt_confirmations opts)"

definition getBalanceInSats :: "LTCHandler \<Rightarrow> services \<Rightarrow> Asset \<Rightarrow> TxOptions option \<Rightarrow> nat \<Rightarrow> error + rat" where
  "getBalanceInSats h sv asset options t =
     (case fst (getUTXOs sv (testnet h) (balance_address h asset options)
                  (options_confirmations options) t) of
        Inl e \<Rightarrow> Inl e
      | Inr utxos \<Rightarrow> Inr (sumSats utxos))"

definition getBalance :: "LTCHandler \<Rightarrow> services \<Rightarrow> Asset \<Rightarrow> TxOptions option \<Rightarrow> nat \<Rightarrow> error + rat" where
  "getBalance h sv asset options t =
     (case getBalanceInSats h sv asset options t of
        Inl e \<Rightarrow> Inl e
      | Inr sats \<Rightarrow> Inr (bn_dividedBy sats (10 ^ decimals)))"

text \<open>
  Spend candidates: \<^verbatim>\<open>List(utxos).sortBy(utxo => utxo.amount).reverse().toArray()\<close>.
  \<^verbatim>\<open>sortBy\<close> is a stable ascending sort on the key, as \<open>sort_key\<close> is.
\<close>

definition spendCandidates :: "UTXO list \<Rightarrow> UTXO list" where
  "spendCandidates fetched = rev (sort_key amount fetched)"

section \<open>The send lifecycle\<close>

text \<open>
  What an observer of one \<^verbatim>\<open>sendSats\<close> call can see, in the order it happens: the
  subscription of the confirmation monitor, the invocation of the external builder, the
  events emitted on the handle and the settlement of its outward result.
\<close>

datatype event = TransactionHash string | Confirmation nat

datatype action =
    Subscribe
  | CallBuilder build_request
  | Emit event
  | Resolve string
  | Reject error

datatype outcome = Pending | Resolved string | Rejected error

datatype monitor_status = NotSubscribed | Subscribed | Stopped

text \<open>
  The asynchronous task of \<^verbatim>\<open>sendSats\<close> suspends at four \<^verbatim>\<open>await\<close>s; the
  program counter names the promise it is waiting for and holds the local variables
  that are live there.
\<close>

datatype pc =
    AwaitAddress
  | AwaitUTXOs string
  | AwaitBuild build_request
  | AwaitBroadcast built
  | Finished

text \<open>
  The state of one call: the captured arguments, the closure variables \<^verbatim>\<open>txHash\<close>
  (undefined until assigned) and \<^verbatim>\<open>errored\<close> (undefined, hence falsy, until set),
  the settlement of the returned handle, the monitor, the observable trace, and the
  clock of provider invocations.
\<close>

record send_state =
  self :: LTCHandler
  arg_to :: string
  arg_valueIn :: rat
  arg_asset :: Asset
  arg_options :: "TxOptions option"
  pc :: pc
  txHash :: "string option"
  errored :: bool
  outcome :: outcome
  monitor :: monitor_status
  trace :: "action list"
  clock :: nat

text \<open>
  Modelled from the spec: the handle made by \<^verbatim>\<open>newPromiEvent\<close> of
  \<^verbatim>\<open>lib/promiEvent\<close>, which is not among the sources. Section 6: the handle emits
  events and exposes a single resolvable or rejectable final outcome. Emitting appends
  the event to what has been observed; listeners are taken not to throw.
\<close>

definition emit :: "event \<Rightarrow> send_state \<Rightarrow> send_state" where
  "emit ev s = s\<lparr>trace := trace s @ [Emit ev]\<rparr>"

text \<open>
  Modelled from the spec: resolution of the handle's single final outcome (section 6);
  an outcome that is already settled is not settled again.
\<close>

definition resolve :: "string \<Rightarrow> send_state \<Rightarrow> send_state" where
  "resolve v s =
     (if outcome s = Pending then s\<lparr>outcome := Resolved v, trace := trace s @ [Resolve v]\<rparr> else s)"

text \<open>
  Modelled from the spec: rejection of the handle's single final outcome (section 6);
  an outcome that is already settled is not settled again.
\<close>

definition reject :: "error \<Rightarrow> send_state \<Rightarrow> send_state" where
  "reject e s =
     (if outcome s = Pending then s\<lparr>outcome := Rejected e, trace := trace s @ [Reject e]\<rparr> else s)"

text \<open>The handler of \<^verbatim>\<open>.catch\<close>: \<^verbatim>\<open>errored = true; promiEvent.reject(error)\<close>.\<close>

definition catch :: "error \<Rightarrow> send_state \<Rightarrow> send_state" where
  "catch e s = reject e (s\<lparr>errored := True, pc := Finished\<rparr>)"

definition builder_request :: "send_state \<Rightarrow> string \<Rightarrow> UTXO list \<Rightarrow> build_request" where
  "builder_request s fromAddress utxos =
     \<lparr> req_testnet = testnet (self s),
       req_privateKey = privateKey (self s),
       req_changeAddress = fromAddress,
       req_to = arg_to s,
       req_value = arg_valueIn s,
       req_utxos = utxos,
       req_options = arg_options s \<rparr>"

text \<open>
  One resumption of the task: the awaited promise settles and the task runs to its next
  \<^verbatim>\<open>await\<close>, to its end, or into the \<^verbatim>\<open>.catch\<close> handler. The assignment of
  \<^verbatim>\<open>txHash\<close>, the emission of \<^verbatim>\<open>"transactionHash"\<close> and the resolution follow one
  another with no \<^verbatim>\<open>await\<close> in between.
\<close>

definition task_step :: "services \<Rightarrow> send_state \<Rightarrow> send_state" where
  "task_step sv s =
     (case pc s of
        AwaitAddress \<Rightarrow> s\<lparr>pc := AwaitUTXOs (address (self s) (arg_asset s))\<rparr>
      | AwaitUTXOs fromAddress \<Rightarrow>
          (case getUTXOs sv (testnet (self s)) fromAddress
                  (options_confirmations (arg_options s)) (clock s) of
             (Inl e, t') \<Rightarrow> catch e (s\<lparr>clock := t'\<rparr>)
           | (Inr fetched, t') \<Rightarrow>
               (let utxos = spendCandidates fetched;
                    req = builder_request s fromAddress utxos
                in s\<lparr>pc := AwaitBuild req, clock := t', trace := trace s @ [CallBuilder req]\<rparr>))
      | AwaitBuild req \<Rightarrow>
          (case BitgoUTXOLib_buildUTXO sv req of
             Inl e \<Rightarrow> catch e s
           | Inr b \<Rightarrow> s\<lparr>pc := AwaitBroadcast b\<rparr>)
      | AwaitBroadcast b \<Rightarrow>
          (case retryNTimes
                  (fallback (apiFallbacks_broadcastTransaction sv (testnet (self s)) (toHex b)))
                  3 (clock s) of
             (Inl e, t') \<Rightarrow> catch e (s\<lparr>clock := t'\<rparr>)
           | (Inr hash, t') \<Rightarrow>
               resolve hash (emit (TransactionHash hash)
                 (s\<lparr>txHash := Some hash, clock := t', pc := Finished\<rparr>)))
      | Finished \<Rightarrow> s)"

text \<open>
  The same task read as one straight-line computation: the value its promise settles
  with when nothing else runs in between.
\<close>

definition sendSats_task ::
  "LTCHandler \<Rightarrow> services \<Rightarrow> string \<Rightarrow> rat \<Rightarrow> Asset \<Rightarrow> TxOptions option \<Rightarrow> nat \<Rightarrow> error + string" where
  "sendSats_task h sv to valueIn asset options t0 =
     (let fromAddress = address h asset;
          changeAddress = fromAddress
      in case getUTXOs sv (testnet h) fromAddress (options_confirmations options) t0 of
           (Inl e, t1) \<Rightarrow> Inl e
         | (Inr fetched, t1) \<Rightarrow>
             (case BitgoUTXOLib_buildUTXO sv
                     \<lparr> req_testnet = testnet h, req_privateKey = privateKey h,
                       req_changeAddress = changeAddress, req_to = to, req_value = valueIn,
                       req_utxos = spendCandidates fetched, req_options = options \<rparr> of
                Inl e \<Rightarrow> Inl e
              | Inr b \<Rightarrow>
                  fst (retryNTimes
                         (fallback (apiFallbacks_broadcastTransaction sv (testnet h) (toHex b)))
                         3 t1)))"

text \<open>
  The two callbacks \<^verbatim>\<open>sendSats\<close> hands to the monitor. \<^verbatim>\<open>txHash ? ... : 0\<close>
  tests truthiness: an undefined or empty hash gives 0 without any provider lookup.
\<close>

definition isErrored :: "send_state \<Rightarrow> bool" where
  "isErrored s = errored s"

definition getConfirmations :: "LTCHandler \<Rightarrow> services \<Rightarrow> string \<Rightarrow> nat \<Rightarrow> (error + nat) \<times> nat" where
  "getConfirmations h sv txh t =
     (case fallback (apiFallbacks_fetchUTXO sv (testnet h) txh 0) t of
        (Inl e, t') \<Rightarrow> (Inl e, t')
      | (Inr utxo, t') \<Rightarrow> (Inr (confirmations utxo), t'))"

definition fetchConfirmations :: "services \<Rightarrow> send_state \<Rightarrow> (error + nat) \<times> nat" where
  "fetchConfirmations sv s =
     (case txHash s of
        None \<Rightarrow> (Inr 0, clock s)
      | Some txh \<Rightarrow>
          if txh \<noteq> [] then getConfirmations (self s) sv txh (clock s) else (Inr 0, clock s))"

text \<open>
  Modelled from the spec: the call of \<^verbatim>\<open>subscribeToConfirmations\<close> of
  \<^verbatim>\<open>lib/confirmations\<close>, which is not among the sources. Section 4.5: the monitor is
  subscribed with the handle and the two callbacks; the call itself only registers it.
\<close>

definition subscribeToConfirmations :: "send_state \<Rightarrow> send_state" where
  "subscribeToConfirmations s = s\<lparr>monitor := Subscribed, trace := trace s @ [Subscribe]\<rparr>"

text \<open>
  Modelled from the spec: one firing of the timer of the monitor of
  \<^verbatim>\<open>lib/confirmations\<close>, which is not among the sources. Section 4.5: the monitor
  starts only after a transaction hash exists; on a fixed interval, if
  \<^verbatim>\<open>isErrored()\<close> is true it stops permanently, with no further polling and no
  further events; otherwise it queries \<^verbatim>\<open>fetchConfirmations()\<close> and emits a
  confirmation event with the latest count; a failing query is swallowed and produces
  no event for that tick. The two callbacks are its parameters.
\<close>

definition monitor_tick ::
  "(send_state \<Rightarrow> bool) \<Rightarrow> (send_state \<Rightarrow> (error + nat) \<times> nat) \<Rightarrow> send_state \<Rightarrow> send_state" where
  "monitor_tick cancelled fetch s =
     (if monitor s \<noteq> Subscribed then s
      else if cancelled s then s\<lparr>monitor := Stopped\<rparr>
      else if txHash s = None then s
      else (case fetch s of
              (Inl e, t') \<Rightarrow> s\<lparr>clock := t'\<rparr>
            | (Inr n, t') \<Rightarrow> emit (Confirmation n) (s\<lparr>clock := t'\<rparr>)))"

text \<open>
  \<^verbatim>\<open>sendSats\<close> itself: the synchronous part creates the handle, starts the task,
  which runs up to its first \<^verbatim>\<open>await\<close>, subscribes the monitor and returns. The
  result is the handle together with the suspended task; \<open>t0\<close> is the provider
  clock at the time of the call.
\<close>

definition sendSats :: "LTCHandler \<Rightarrow> string \<Rightarrow> rat \<Rightarrow> Asset \<Rightarrow> TxOptions option \<Rightarrow> nat \<Rightarrow> send_state" where
  "sendSats h to valueIn asset options t0 =
     subscribeToConfirmations
       \<lparr> self = h, arg_to = to, arg_valueIn = valueIn, arg_asset = asset, arg_options = options,
         pc = AwaitAddress, txHash = None, errored = False, outcome = Pending,
         monitor = NotSubscribed, trace = [], clock = t0 \<rparr>"

definition send :: "LTCHandler \<Rightarrow> string \<Rightarrow> rat \<Rightarrow> Asset \<Rightarrow> TxOptions option \<Rightarrow> nat \<Rightarrow> send_state" where
  "send h to val asset options t0 =
     sendSats h to (bn_times val (10 ^ decimals)) asset options t0"

text \<open>
  Scheduling is cooperative and single-threaded: a schedule says, turn by turn, whether
  the task resumes or the monitor's timer fires.
\<close>

datatype turn = Task | Tick

fun step :: "services \<Rightarrow> send_state \<Rightarrow> turn \<Rightarrow> send_state" where
  "step sv s Task = task_step sv s"
| "step sv s Tick = monitor_tick isErrored (fetchConfirmations sv) s"

fun exec :: "services \<Rightarrow> send_state \<Rightarrow> turn list \<Rightarrow> send_state" where
  "exec sv s [] = s"
| "exec sv s (a # sched) = exec sv (step sv s a) sched"

section \<open>Observations on traces\<close>

text \<open>The hashes announced, the confirmation counts announced and the values the outward
  result was resolved with, each in order of occurrence.\<close>

fun transactionHashes :: "action list \<Rightarrow> string list" where
  "transactionHashes [] = []"
| "transactionHashes (Emit (TransactionHash h) # tr) = h # transactionHashes tr"
| "transactionHashes (a # tr) = transactionHashes tr"

fun confirmationCounts :: "action list \<Rightarrow> nat list" where
  "confirmationCounts [] = []"
| "confirmationCounts (Emit (Confirmation n) # tr) = n # confirmationCounts tr"
| "confirmationCounts (a # tr) = confirmationCounts tr"

fun resolutions :: "action list \<Rightarrow> string list" where
  "resolutions [] = []"
| "resolutions (Resolve h # tr) = h # resolutions tr"
| "resolutions (a # tr) = resolutions tr"

section \<open>Reachable states of one send\<close>

text \<open>
  The invariant describes every state a schedule can reach from the state \<open>i\<close> that
  \<^verbatim>\<open>sendSats\<close> returned: while the task is suspended nothing has been announced or
  settled; once it has finished, the handle is settled with what the straight-line task
  yields and the trace has one of three shapes.
\<close>

definition pending :: "send_state \<Rightarrow> bool" where
  "pending s \<longleftrightarrow> txHash s = None \<and> \<not> errored s \<and> outcome s = Pending \<and> monitor s = Subscribed"

definition frame :: "send_state \<Rightarrow> send_state \<Rightarrow> bool" where
  "frame i s \<longleftrightarrow> self s = self i \<and> arg_to s = arg_to i \<and> arg_valueIn s = arg_valueIn i \<and>
     arg_asset s = arg_asset i \<and> arg_options s = arg_options i"

definition fetched_of :: "services \<Rightarrow> send_state \<Rightarrow> (error + UTXO list) \<times> nat" where
  "fetched_of sv i = getUTXOs sv (testnet (self i)) (address (self i) (arg_asset i))
     (options_confirmations (arg_options i)) (clock i)"

definition request_of :: "send_state \<Rightarrow> UTXO list \<Rightarrow> build_request" where
  "request_of i fetched = builder_request i (address (self i) (arg_asset i)) (spendCandidates fetched)"

definition task_of :: "services \<Rightarrow> send_state \<Rightarrow> error + string" where
  "task_of sv i = sendSats_task (self i) sv (arg_to i) (arg_valueIn i) (arg_asset i) (arg_options i) (clock i)"

definition lifecycle_inv :: "services \<Rightarrow> send_state \<Rightarrow> send_state \<Rightarrow> bool" where
  "lifecycle_inv sv i s \<longleftrightarrow> frame i s \<and>
     (case pc s of
        AwaitAddress \<Rightarrow> pending s \<and> trace s = [Subscribe] \<and> clock s = clock i
      | AwaitUTXOs a \<Rightarrow> pending s \<and> a = address (self i) (arg_asset i) \<and> trace s = [Subscribe] \<and> clock s = clock i
      | AwaitBuild req \<Rightarrow> pending s \<and>
          (\<exists>fetched. fetched_of sv i = (Inr fetched, clock s) \<and> req = request_of i fetched \<and>
             trace s = [Subscribe, CallBuilder req])
      | AwaitBroadcast b \<Rightarrow> pending s \<and>
          (\<exists>fetched. fetched_of sv i = (Inr fetched, clock s) \<and>
             BitgoUTXOLib_buildUTXO sv (request_of i fetched) = Inr b \<and>
             trace s = [Subscribe, CallBuilder (request_of i fetched)])
      | Finished \<Rightarrow>
          (case task_of sv i of
             Inl e \<Rightarrow> txHash s = None \<and> errored s \<and> outcome s = Rejected e \<and> monitor s \<noteq> NotSubscribed \<and>
               ((\<exists>t1. fetched_of sv i = (Inl e, t1) \<and> trace s = [Subscribe, Reject e]) \<or>
                (\<exists>fetched t1. fetched_of sv i = (Inr fetched, t1) \<and>
                   trace s = [Subscribe, CallBuilder (request_of i fetched), Reject e]))
           | Inr hash \<Rightarrow> txHash s = Some hash \<and> \<not> errored s \<and> outcome s = Resolved hash \<and>
               monitor s = Subscribed \<and>
               (\<exists>fetched t1 ns. fetched_of sv i = (Inr fetched, t1) \<and>
                  trace s = [Subscribe, CallBuilder (request_of i fetched),
                             Emit (TransactionHash hash), Resolve hash] @
                            map (\<lambda>n. Emit (Confirmation n)) ns)))"

fun awaits_left :: "pc \<Rightarrow> nat" where
  "awaits_left AwaitAddress = 4"
| "awaits_left (AwaitUTXOs a) = 3"
| "awaits_left (AwaitBuild req) = 2"
| "awaits_left (AwaitBroadcast b) = 1"
| "awaits_left Finished = 0"

section \<open>Example data\<close>

text \<open>
  Four unspent outputs of 5, 3, 10 and 1 coins, a provider whose broadcast endpoint fails
  until the clock reaches 2, a builder that always succeeds, and a variant whose builder
  reports insufficient funds.
\<close>

definition example_utxo :: "string \<Rightarrow> int \<Rightarrow> UTXO" where
  "example_utxo txh a = \<lparr> utxo_txHash = txh, vOut = 0, amount = a, confirmations = 6 \<rparr>"

definition example_utxos :: "UTXO list" where
  "example_utxos = [example_utxo ''a'' 500000000, example_utxo ''b'' 300000000,
     example_utxo ''c'' 1000000000, example_utxo ''d'' 100000000]"

definition example_services :: services where
  "example_services =
     \<lparr> Sochain_fetchUTXO = (\<lambda>net txh vout t. Inr \<lparr> utxo_txHash = txh, vOut = vout, amount = 150000000, confirmations = t \<rparr>),
       Sochain_fetchUTXOs = (\<lambda>net addr confs t. Inr example_utxos),
       Sochain_fetchTXs = (\<lambda>net addr confs t. Inr []),
       Sochain_broadcastTransaction = (\<lambda>net hex t. if t < 2 then Inl (ProviderError ''busy'') else Inr ''f00d''),
       BitgoUTXOLib_buildUTXO = (\<lambda>req. Inr (Built ''0100'')) \<rparr>"

definition failing_services :: services where
  "failing_services = example_services\<lparr> BitgoUTXOLib_buildUTXO := (\<lambda>req. Inl (BuildError ''insufficient funds'')) \<rparr>"

definition example_handler :: LTCHandler where
  "example_handler = newLTCHandler \<lparr> getAddress = ''Lsender'' \<rparr> ''mainnet''"

definition example_request :: build_request where
  "example_request =
     \<lparr> req_testnet = False, req_privateKey = \<lparr> getAddress = ''Lsender'' \<rparr>,
       req_changeAddress = ''Lsender'', req_to = ''Lreceiver'', req_value = 150000000,
       req_utxos = [example_utxo ''c'' 1000000000, example_utxo ''a'' 500000000,
                    example_utxo ''b'' 300000000, example_utxo ''d'' 100000000],
       req_options = None \<rparr>"

text \<open>The request the builder receives when one and a half smallest units are sent.\<close>

definition fractional_request :: build_request where
  "fractional_request = example_request\<lparr> req_value := 3 / 2 \<rparr>"

text \<open>The same provider returning the four outputs in the opposite order.\<close>

definition reversed_services :: services where
  "reversed_services = example_services\<lparr> Sochain_fetchUTXOs := (\<lambda>net addr confs t. Inr (rev example_utxos)) \<rparr>"

section \<open>The invariant holds along every schedule\<close>

lemma task_of_unfold:
  "task_of sv i =
     (case fetched_of sv i of
        (Inl e, t1) \<Rightarrow> Inl e
      | (Inr fetched, t1) \<Rightarrow>
          (case BitgoUTXOLib_buildUTXO sv (request_of i fetched) of
             Inl e \<Rightarrow> Inl e
           | Inr b \<Rightarrow> fst (retryNTimes
                 (fallback (apiFallbacks_broadcastTransaction sv (testnet (self i)) (toHex b))) 3 t1)))"
  by (simp add: task_of_def sendSats_task_def fetched_of_def request_of_def builder_request_def Let_def
      split: prod.splits sum.splits)

lemma inv_init: "lifecycle_inv sv (sendSats h to v asset options t0) (sendSats h to v asset options t0)"
  by (simp add: lifecycle_inv_def frame_def pending_def sendSats_def subscribeToConfirmations_def)

lemma inv_task:
  assumes "lifecycle_inv sv i s"
  shows "lifecycle_inv sv i (task_step sv s)"
proof (cases "pc s")
  case AwaitAddress
  with assms show ?thesis
    by (simp add: lifecycle_inv_def task_step_def frame_def pending_def)
next
  case (AwaitUTXOs a)
  with assms show ?thesis
    by (auto simp: lifecycle_inv_def task_step_def frame_def pending_def task_of_unfold fetched_of_def
        request_of_def builder_request_def catch_def reject_def Let_def split: prod.splits sum.splits)
next
  case (AwaitBuild req)
  with assms show ?thesis
    by (auto simp: lifecycle_inv_def task_step_def frame_def pending_def task_of_unfold
        catch_def reject_def split: prod.splits sum.splits)
next
  case (AwaitBroadcast b)
  with assms show ?thesis
    by (auto simp: lifecycle_inv_def task_step_def frame_def pending_def task_of_unfold
        catch_def reject_def resolve_def emit_def split: prod.splits sum.splits)
next
  case Finished
  with assms show ?thesis
    by (simp add: task_step_def)
qed


lemma inv_tick:
  assumes "lifecycle_inv sv i s"
  shows "lifecycle_inv sv i (monitor_tick isErrored (fetchConfirmations sv) s)"
proof (cases "pc s")
  case Finished
  show ?thesis
  proof (cases "task_of sv i")
    case (Inl e)
    with assms Finished show ?thesis
      by (auto simp: lifecycle_inv_def monitor_tick_def isErrored_def frame_def)
  next
    case (Inr hash)
    with assms Finished obtain fetched t1 ns where
      tr: "fetched_of sv i = (Inr fetched, t1)"
          "trace s = [Subscribe, CallBuilder (request_of i fetched),
                      Emit (TransactionHash hash), Resolve hash] @ map (\<lambda>n. Emit (Confirmation n)) ns"
      and st: "txHash s = Some hash" "\<not> errored s" "outcome s = Resolved hash" "monitor s = Subscribed"
              "frame i s"
      by (auto simp: lifecycle_inv_def)
    show ?thesis
    proof (cases "fetchConfirmations sv s")
      case (Pair r t')
      show ?thesis
      proof (cases r)
        case (Inl e)
        with Pair Finished Inr tr st show ?thesis
          by (auto simp: lifecycle_inv_def monitor_tick_def isErrored_def frame_def)
      next
        case (Inr n)
        have "trace s @ [Emit (Confirmation n)] =
              [Subscribe, CallBuilder (request_of i fetched),
               Emit (TransactionHash hash), Resolve hash] @ map (\<lambda>n. Emit (Confirmation n)) (ns @ [n])"
          using tr(2) by simp
        with Pair Finished \<open>task_of sv i = Inr hash\<close> Inr tr(1) st show ?thesis
          unfolding lifecycle_inv_def monitor_tick_def isErrored_def frame_def emit_def
          by (simp del: append.simps map_append) blast
      qed
    qed
  qed
qed (use assms in \<open>auto simp: lifecycle_inv_def monitor_tick_def isErrored_def frame_def pending_def\<close>)

lemma inv_step: "lifecycle_inv sv i s \<Longrightarrow> lifecycle_inv sv i (step sv s a)"
  by (cases a) (simp_all add: inv_task inv_tick)

lemma inv_exec: "lifecycle_inv sv i s \<Longrightarrow> lifecycle_inv sv i (exec sv s sched)"
  by (induction sched arbitrary: s) (simp_all add: inv_step)

lemma inv_run:
  "lifecycle_inv sv (sendSats h to v asset options t0) (exec sv (sendSats h to v asset options t0) sched)"
  by (rule inv_exec [OF inv_init])

lemma task_step_progress: "awaits_left (pc (task_step sv s)) \<le> awaits_left (pc s) - 1"
  by (cases "pc s")
     (auto simp: task_step_def catch_def reject_def resolve_def emit_def Let_def
           split: prod.splits sum.splits)

lemma tick_pc: "pc (monitor_tick c f s) = pc s"
  by (auto simp: monitor_tick_def emit_def split: prod.splits sum.splits)

lemma exec_progress:
  "awaits_left (pc (exec sv s sched)) \<le> awaits_left (pc s) - count_list sched Task"
proof (induction sched arbitrary: s)
  case Nil
  show ?case by simp
next
  case (Cons a sched)
  show ?case
  proof (cases a)
    case Task
    have "awaits_left (pc (exec sv (task_step sv s) sched))
          \<le> awaits_left (pc (task_step sv s)) - count_list sched Task"
      by (rule Cons.IH)
    also have "\<dots> \<le> (awaits_left (pc s) - 1) - count_list sched Task"
      using task_step_progress [of sv s] by simp
    finally show ?thesis using Task by simp
  next
    case Tick
    with Cons.IH [of "monitor_tick isErrored (fetchConfirmations sv) s"] show ?thesis
      by (simp add: tick_pc)
  qed
qed

lemma run_finishes:
  assumes "4 \<le> count_list sched Task"
  shows "pc (exec sv (sendSats h to v asset options t0) sched) = Finished"
proof -
  have "awaits_left (pc (exec sv (sendSats h to v asset options t0) sched)) = 0"
    using exec_progress [of sv "sendSats h to v asset options t0" sched] assms
    by (simp add: sendSats_def subscribeToConfirmations_def)
  then show ?thesis
    by (cases "pc (exec sv (sendSats h to v asset options t0) sched)") simp_all
qed

lemma transactionHashes_confirmations [simp]:
  "transactionHashes (map (\<lambda>n. Emit (Confirmation n)) ns) = []"
  by (induction ns) simp_all

lemma resolutions_confirmations [simp]:
  "resolutions (map (\<lambda>n. Emit (Confirmation n)) ns) = []"
  by (induction ns) simp_all

lemma confirmation_split:
  assumes "a # b # c # d # rest = pre @ Emit (Confirmation n) # post"
    and "a \<noteq> Emit (Confirmation n)" "b \<noteq> Emit (Confirmation n)"
        "c \<noteq> Emit (Confirmation n)" "d \<noteq> Emit (Confirmation n)"
  shows "\<exists>p2. pre = a # b # c # d # p2"
  using assms by (auto simp: Cons_eq_append_conv)

lemma task_of_sendSats:
  "task_of sv (sendSats h to v asset options t0) = sendSats_task h sv to v asset options t0"
  by (simp add: task_of_def sendSats_def subscribeToConfirmations_def)

lemma confirmationCounts_events [simp]:
  "confirmationCounts (map (\<lambda>n. Emit (Confirmation n)) ns) = ns"
  by (induction ns) simp_all

text \<open>
  What the invariant says about a send whose task has finished, by the task's result,
  and about one whose task is still suspended.
\<close>

lemma finished_failure:
  assumes "lifecycle_inv sv i s" "pc s = Finished" "task_of sv i = Inl e"
  shows "txHash s = None \<and> errored s \<and> outcome s = Rejected e \<and>
         transactionHashes (trace s) = [] \<and> confirmationCounts (trace s) = [] \<and>
         resolutions (trace s) = [] \<and> Reject e \<in> set (trace s)"
  using assms by (auto simp: lifecycle_inv_def)

lemma finished_success:
  assumes "lifecycle_inv sv i s" "pc s = Finished" "task_of sv i = Inr hash"
  shows "txHash s = Some hash \<and> \<not> errored s \<and> outcome s = Resolved hash \<and>
         transactionHashes (trace s) = [hash] \<and> resolutions (trace s) = [hash] \<and>
         (\<exists>p1 p2. trace s = p1 @ Emit (TransactionHash hash) # Resolve hash # p2)"
proof -
  from assms obtain fetched ns where
    tr: "trace s = [Subscribe, CallBuilder (request_of i fetched)] @
           Emit (TransactionHash hash) # Resolve hash # map (\<lambda>n. Emit (Confirmation n)) ns"
    and st: "txHash s = Some hash" "\<not> errored s" "outcome s = Resolved hash"
    by (auto simp: lifecycle_inv_def)
  from tr have "transactionHashes (trace s) = [hash]" "resolutions (trace s) = [hash]"
    by simp_all
  with tr st show ?thesis by blast
qed

lemma unfinished_quiet:
  assumes "lifecycle_inv sv i s" "pc s \<noteq> Finished"
  shows "txHash s = None \<and> \<not> errored s \<and> outcome s = Pending \<and>
         transactionHashes (trace s) = [] \<and> confirmationCounts (trace s) = [] \<and>
         resolutions (trace s) = []"
  using assms by (cases "pc s") (auto simp: lifecycle_inv_def pending_def)

lemma builder_calls:
  assumes "lifecycle_inv sv i s" "CallBuilder req \<in> set (trace s)"
  shows "\<exists>fetched t1. fetched_of sv i = (Inr fetched, t1) \<and> req = request_of i fetched"
proof (cases "pc s")
  case Finished
  with assms show ?thesis
    by (cases "task_of sv i") (auto simp: lifecycle_inv_def)
qed (use assms in \<open>auto simp: lifecycle_inv_def\<close>)

lemma exec_append: "exec sv s (xs @ ys) = exec sv (exec sv s xs) ys"
  by (induction xs arbitrary: s) simp_all

section \<open>Ordering of events\<close>

text \<open>
  C1. On every schedule, whenever a \<^verbatim>\<open>"confirmation"\<close> event occurs in the trace of a
  send, the part of the trace before it already holds the \<^verbatim>\<open>"transactionHash"\<close> event
  and, right after it, the resolution of the outward result with the same hash, which is
  the hash the broadcast returned. No confirmation event precedes either of them.
\<close>

theorem confirmation_only_after_hash_and_resolution:
  assumes "trace (exec sv (sendSats h to v asset options t0) sched) = pre @ Emit (Confirmation n) # post"
  shows "\<exists>hash p1 p2. sendSats_task h sv to v asset options t0 = Inr hash \<and>
           pre = p1 @ Emit (TransactionHash hash) # Resolve hash # p2"
proof -
  let ?i = "sendSats h to v asset options t0"
  let ?s = "exec sv ?i sched"
  have inv: "lifecycle_inv sv ?i ?s" by (rule inv_run)
  have mem: "Emit (Confirmation n) \<in> set (trace ?s)" using assms by simp
  have task: "task_of sv ?i = sendSats_task h sv to v asset options t0"
    by (simp add: task_of_def sendSats_def subscribeToConfirmations_def)
  show ?thesis
  proof (cases "pc ?s")
    case Finished
    show ?thesis
    proof (cases "task_of sv ?i")
      case (Inl e)
      with inv Finished mem show ?thesis by (auto simp: lifecycle_inv_def)
    next
      case (Inr hash)
      with inv Finished obtain fetched ns where
        tr: "trace ?s = Subscribe # CallBuilder (request_of ?i fetched) #
                Emit (TransactionHash hash) # Resolve hash # map (\<lambda>n. Emit (Confirmation n)) ns"
        by (auto simp: lifecycle_inv_def)
      from confirmation_split [OF tr [unfolded assms, symmetric]] obtain p2 where
        "pre = Subscribe # CallBuilder (request_of ?i fetched) #
                Emit (TransactionHash hash) # Resolve hash # p2"
        by auto
      then have "pre = [Subscribe, CallBuilder (request_of ?i fetched)] @
                Emit (TransactionHash hash) # Resolve hash # p2" by simp
      with Inr task show ?thesis by metis
    qed
  qed (use inv mem in \<open>auto simp: lifecycle_inv_def\<close>)
qed

lemma example_trace:
  "trace (exec example_services
      (sendSats example_handler ''Lreceiver'' 150000000 (AssetString ''LTC'') None 0)
      [Tick, Task, Task, Tick, Task, Task, Tick]) =
    [Subscribe, CallBuilder example_request, Emit (TransactionHash ''f00d''), Resolve ''f00d'']
      @ Emit (Confirmation 3) # []"
  by code_simp

theorem confirmation_only_after_hash_and_resolution_witness:
  "trace (exec example_services
      (sendSats example_handler ''Lreceiver'' 150000000 (AssetString ''LTC'') None 0)
      [Tick, Task, Task, Tick, Task, Task, Tick]) =
    [Subscribe, CallBuilder example_request, Emit (TransactionHash ''f00d''), Resolve ''f00d'']
      @ Emit (Confirmation 3) # []
   \<and> (\<exists>hash p1 p2.
        sendSats_task example_handler example_services ''Lreceiver'' 150000000 (AssetString ''LTC'') None 0 = Inr hash \<and>
        [Subscribe, CallBuilder example_request, Emit (TransactionHash ''f00d''), Resolve ''f00d'']
          = p1 @ Emit (TransactionHash hash) # Resolve hash # p2)"
  using example_trace confirmation_only_after_hash_and_resolution [OF example_trace]
  by (simp only: simp_thms)

text \<open>
  C2, as amended. A send announces its hash at most once. When the task's build and
  broadcast succeed with a hash, then once the task has resumed from its four
  \<^verbatim>\<open>await\<close>s exactly one \<^verbatim>\<open>"transactionHash"\<close> event has been emitted, with that
  hash, and the outward result has been resolved exactly once, with the same hash, right
  after the emission. When the build or the broadcast fails, no
  \<^verbatim>\<open>"transactionHash"\<close> event is emitted at all and the result is rejected.
\<close>

theorem transactionHash_once_then_resolution:
  "length (transactionHashes (trace (exec sv (sendSats h to v asset options t0) sched))) \<le> 1 \<and>
   (4 \<le> count_list sched Task \<longrightarrow>
      (case sendSats_task h sv to v asset options t0 of
         Inr hash \<Rightarrow>
           transactionHashes (trace (exec sv (sendSats h to v asset options t0) sched)) = [hash] \<and>
           resolutions (trace (exec sv (sendSats h to v asset options t0) sched)) = [hash] \<and>
           (\<exists>p1 p2. trace (exec sv (sendSats h to v asset options t0) sched)
                      = p1 @ Emit (TransactionHash hash) # Resolve hash # p2)
       | Inl e \<Rightarrow>
           transactionHashes (trace (exec sv (sendSats h to v asset options t0) sched)) = [] \<and>
           outcome (exec sv (sendSats h to v asset options t0) sched) = Rejected e))"
proof -
  let ?i = "sendSats h to v asset options t0"
  let ?s = "exec sv ?i sched"
  have inv: "lifecycle_inv sv ?i ?s" by (rule inv_run)
  have le: "length (transactionHashes (trace ?s)) \<le> 1"
  proof (cases "pc ?s = Finished")
    case True
    then show ?thesis
      using finished_failure [OF inv True] finished_success [OF inv True]
      by (cases "task_of sv ?i") simp_all
  next
    case False
    then show ?thesis using unfinished_quiet [OF inv False] by simp
  qed
  have fin: "case sendSats_task h sv to v asset options t0 of
         Inr hash \<Rightarrow>
           transactionHashes (trace ?s) = [hash] \<and> resolutions (trace ?s) = [hash] \<and>
           (\<exists>p1 p2. trace ?s = p1 @ Emit (TransactionHash hash) # Resolve hash # p2)
       | Inl e \<Rightarrow> transactionHashes (trace ?s) = [] \<and> outcome ?s = Rejected e"
    if "4 \<le> count_list sched Task"
  proof -
    have f: "pc ?s = Finished" by (rule run_finishes [OF that])
    show ?thesis
    proof (cases "sendSats_task h sv to v asset options t0")
      case (Inl e)
      then have "task_of sv ?i = Inl e" by (simp add: task_of_sendSats)
      from finished_failure [OF inv f this] Inl show ?thesis by simp
    next
      case (Inr hash)
      then have "task_of sv ?i = Inr hash" by (simp add: task_of_sendSats)
      from finished_success [OF inv f this] Inr show ?thesis by simp
    qed
  qed
  from le fin show ?thesis by blast
qed

lemma example_task:
  "sendSats_task example_handler example_services ''Lreceiver'' 150000000 (AssetString ''LTC'') None 0
     = Inr ''f00d''"
  by code_simp

theorem transactionHash_once_then_resolution_witness:
  "4 \<le> count_list [Tick, Task, Task, Tick, Task, Task, Tick] Task \<and>
   transactionHashes (trace (exec example_services
      (sendSats example_handler ''Lreceiver'' 150000000 (AssetString ''LTC'') None 0)
      [Tick, Task, Task, Tick, Task, Task, Tick])) = [''f00d''] \<and>
   resolutions (trace (exec example_services
      (sendSats example_handler ''Lreceiver'' 150000000 (AssetString ''LTC'') None 0)
      [Tick, Task, Task, Tick, Task, Task, Tick])) = [''f00d'']"
proof -
  have c: "4 \<le> count_list [Tick, Task, Task, Tick, Task, Task, Tick] Task" by simp
  from transactionHash_once_then_resolution [of example_services example_handler "''Lreceiver''"
      150000000 "AssetString ''LTC''" None 0 "[Tick, Task, Task, Tick, Task, Task, Tick]"] c
  show ?thesis by (simp only: example_task sum.case)
qed

text \<open>
  The wording of C2 for every invocation does not hold: with a builder that reports
  insufficient funds the task runs to its end, the result is rejected, and the number
  of \<^verbatim>\<open>"transactionHash"\<close> events is zero, not one.
\<close>

theorem failed_send_emits_no_transactionHash:
  "sendSats_task example_handler failing_services ''Lreceiver'' 150000000 (AssetString ''LTC'') None 0
     = Inl (BuildError ''insufficient funds'') \<and>
   pc (exec failing_services
         (sendSats example_handler ''Lreceiver'' 150000000 (AssetString ''LTC'') None 0)
         [Task, Task, Task, Task]) = Finished \<and>
   trace (exec failing_services
         (sendSats example_handler ''Lreceiver'' 150000000 (AssetString ''LTC'') None 0)
         [Task, Task, Task, Task])
     = [Subscribe, CallBuilder example_request, Reject (BuildError ''insufficient funds'')] \<and>
   length (transactionHashes (trace (exec failing_services
         (sendSats example_handler ''Lreceiver'' 150000000 (AssetString ''LTC'') None 0)
         [Task, Task, Task, Task]))) = 0"
  by code_simp

section \<open>Subscription and start of the monitor\<close>

text \<open>
  C3, as amended. \<^verbatim>\<open>sendSats\<close> subscribes the monitor at once, in its synchronous
  part, when \<^verbatim>\<open>txHash\<close> is still unset and nothing else has happened. On every
  schedule \<^verbatim>\<open>txHash\<close> stays unset until the task has finished, and as long as it
  is unset the callback \<^verbatim>\<open>fetchConfirmations\<close> handed to the monitor answers 0
  without invoking any provider: the provider clock is returned as it was.
\<close>

theorem monitor_subscribed_at_once_lookup_guarded:
  "monitor (sendSats h to v asset options t0) = Subscribed \<and>
   txHash (sendSats h to v asset options t0) = None \<and>
   trace (sendSats h to v asset options t0) = [Subscribe] \<and>
   (pc (exec sv (sendSats h to v asset options t0) sched) \<noteq> Finished \<longrightarrow>
      txHash (exec sv (sendSats h to v asset options t0) sched) = None) \<and>
   (txHash (exec sv (sendSats h to v asset options t0) sched) = None \<longrightarrow>
      fetchConfirmations sv (exec sv (sendSats h to v asset options t0) sched)
        = (Inr 0, clock (exec sv (sendSats h to v asset options t0) sched)))"
proof -
  let ?i = "sendSats h to v asset options t0"
  let ?s = "exec sv ?i sched"
  have inv: "lifecycle_inv sv ?i ?s" by (rule inv_run)
  have first: "monitor ?i = Subscribed \<and> txHash ?i = None \<and> trace ?i = [Subscribe]"
    by (simp add: sendSats_def subscribeToConfirmations_def)
  have unset: "txHash ?s = None" if "pc ?s \<noteq> Finished"
    using unfinished_quiet [OF inv that] by simp
  have guarded: "fetchConfirmations sv ?s = (Inr 0, clock ?s)" if "txHash ?s = None"
    using that by (simp add: fetchConfirmations_def)
  from first unset guarded show ?thesis by blast
qed

lemma example_unset:
  "pc (exec example_services
      (sendSats example_handler ''Lreceiver'' 150000000 (AssetString ''LTC'') None 0)
      [Task, Tick, Task, Task]) \<noteq> Finished"
  by code_simp

theorem monitor_subscribed_at_once_lookup_guarded_witness:
  "pc (exec example_services
      (sendSats example_handler ''Lreceiver'' 150000000 (AssetString ''LTC'') None 0)
      [Task, Tick, Task, Task]) \<noteq> Finished \<and>
   txHash (exec example_services
      (sendSats example_handler ''Lreceiver'' 150000000 (AssetString ''LTC'') None 0)
      [Task, Tick, Task, Task]) = None \<and>
   fetchConfirmations example_services (exec example_services
      (sendSats example_handler ''Lreceiver'' 150000000 (AssetString ''LTC'') None 0)
      [Task, Tick, Task, Task])
    = (Inr 0, clock (exec example_services
      (sendSats example_handler ''Lreceiver'' 150000000 (AssetString ''LTC'') None 0)
      [Task, Tick, Task, Task]))"
  using monitor_subscribed_at_once_lookup_guarded [of example_handler "''Lreceiver''" 150000000
      "AssetString ''LTC''" None 0 example_services "[Task, Tick, Task, Task]"] example_unset
  by blast

text \<open>
  Under the monitor of section 4.5 a tick that finds \<^verbatim>\<open>txHash\<close> unset changes neither
  the trace nor the provider clock, and no confirmation event has been emitted so far.
\<close>

lemma tick_idle_while_unset:
  assumes "lifecycle_inv sv i s" "txHash s = None"
  shows "confirmationCounts (trace s) = [] \<and>
         trace (step sv s Tick) = trace s \<and> clock (step sv s Tick) = clock s"
proof -
  have "confirmationCounts (trace s) = []"
  proof (cases "pc s = Finished")
    case True
    show ?thesis
    proof (cases "task_of sv i")
      case (Inl e)
      from finished_failure [OF assms(1) True this] show ?thesis by simp
    next
      case (Inr hash)
      from finished_success [OF assms(1) True this] assms(2) show ?thesis by simp
    qed
  next
    case False
    from unfinished_quiet [OF assms(1) False] show ?thesis by simp
  qed
  then show ?thesis using assms(2) by (simp add: monitor_tick_def)
qed

text \<open>
  The wording of C3, that the monitor is subscribed only after a transaction hash
  exists, does not hold: in the state \<^verbatim>\<open>sendSats\<close> returns the monitor is subscribed,
  the subscription is the only action so far, and \<^verbatim>\<open>txHash\<close> is unset.
\<close>

theorem monitor_subscribed_while_hash_unset:
  "monitor (sendSats example_handler ''Lreceiver'' 150000000 (AssetString ''LTC'') None 0) = Subscribed \<and>
   txHash (sendSats example_handler ''Lreceiver'' 150000000 (AssetString ''LTC'') None 0) = None \<and>
   trace (sendSats example_handler ''Lreceiver'' 150000000 (AssetString ''LTC'') None 0) = [Subscribe]"
  by (simp add: sendSats_def subscribeToConfirmations_def)

section \<open>Failure of the build or the broadcast\<close>

lemma errored_step_silent:
  assumes "pc s = Finished" "errored s"
  shows "pc (step sv s a) = Finished \<and> errored (step sv s a) \<and> trace (step sv s a) = trace s"
  using assms by (cases a) (simp_all add: task_step_def monitor_tick_def isErrored_def)

lemma errored_exec_silent:
  assumes "pc s = Finished" "errored s"
  shows "trace (exec sv s later) = trace s \<and> errored (exec sv s later)"
  using assms
proof (induction later arbitrary: s)
  case Nil
  then show ?case by simp
next
  case (Cons a later)
  from errored_step_silent [OF Cons.prems, of sv a] Cons.IH [of "step sv s a"]
  show ?case by simp
qed

text \<open>
  C4. When the task of a send fails with error \<open>e\<close> (the provider query, the
  builder or the retried broadcast rejects), then once the task has resumed from its
  \<^verbatim>\<open>await\<close>s the flag \<^verbatim>\<open>errored\<close> is set and the outward result is rejected
  with exactly \<open>e\<close>. No confirmation event has been emitted, the next tick stops the
  monitor, and whatever is scheduled later adds nothing to the trace.
\<close>

theorem failure_sets_errored_and_rejects:
  assumes "sendSats_task h sv to v asset options t0 = Inl e"
    and "4 \<le> count_list sched Task"
  shows "errored (exec sv (sendSats h to v asset options t0) sched) \<and>
         outcome (exec sv (sendSats h to v asset options t0) sched) = Rejected e \<and>
         Reject e \<in> set (trace (exec sv (sendSats h to v asset options t0) sched)) \<and>
         confirmationCounts (trace (exec sv (sendSats h to v asset options t0) sched)) = [] \<and>
         monitor (step sv (exec sv (sendSats h to v asset options t0) sched) Tick) = Stopped \<and>
         trace (exec sv (exec sv (sendSats h to v asset options t0) sched) later)
           = trace (exec sv (sendSats h to v asset options t0) sched)"
proof -
  let ?i = "sendSats h to v asset options t0"
  let ?s = "exec sv ?i sched"
  have inv: "lifecycle_inv sv ?i ?s" by (rule inv_run)
  have f: "pc ?s = Finished" by (rule run_finishes [OF assms(2)])
  have t: "task_of sv ?i = Inl e" using assms(1) by (simp add: task_of_sendSats)
  note fin = finished_failure [OF inv f t]
  have "monitor ?s \<noteq> NotSubscribed"
    using inv f t by (simp add: lifecycle_inv_def)
  then have "monitor (step sv ?s Tick) = Stopped"
    using fin by (cases "monitor ?s") (simp_all add: monitor_tick_def isErrored_def)
  moreover have "trace (exec sv ?s later) = trace ?s"
    using errored_exec_silent [OF f, of sv later] fin by simp
  ultimately show ?thesis using fin by simp
qed

lemma failing_task:
  "sendSats_task example_handler failing_services ''Lreceiver'' 150000000 (AssetString ''LTC'') None 0
     = Inl (BuildError ''insufficient funds'')"
  by code_simp

theorem failure_sets_errored_and_rejects_witness:
  "sendSats_task example_handler failing_services ''Lreceiver'' 150000000 (AssetString ''LTC'') None 0
     = Inl (BuildError ''insufficient funds'') \<and>
   4 \<le> count_list [Task, Tick, Task, Task, Task] Task \<and>
   errored (exec failing_services
      (sendSats example_handler ''Lreceiver'' 150000000 (AssetString ''LTC'') None 0)
      [Task, Tick, Task, Task, Task]) \<and>
   outcome (exec failing_services
      (sendSats example_handler ''Lreceiver'' 150000000 (AssetString ''LTC'') None 0)
      [Task, Tick, Task, Task, Task]) = Rejected (BuildError ''insufficient funds'') \<and>
   trace (exec failing_services (exec failing_services
      (sendSats example_handler ''Lreceiver'' 150000000 (AssetString ''LTC'') None 0)
      [Task, Tick, Task, Task, Task]) [Tick, Tick])
    = trace (exec failing_services
      (sendSats example_handler ''Lreceiver'' 150000000 (AssetString ''LTC'') None 0)
      [Task, Tick, Task, Task, Task])"
proof -
  have c: "4 \<le> count_list [Task, Tick, Task, Task, Task] Task" by simp
  from failure_sets_errored_and_rejects [OF failing_task c, of "[Tick, Tick]"] failing_task c
  show ?thesis by blast
qed

section \<open>Spend candidates\<close>

lemma spendCandidates_descending:
  "sorted_wrt (\<lambda>a b. amount b \<le> amount a) (spendCandidates fetched)"
proof -
  have "sorted_wrt (\<lambda>a b. amount a \<le> amount b) (sort_key amount fetched)"
    using sorted_sort_key [of amount fetched] by (simp add: sorted_map)
  then show ?thesis by (simp add: spendCandidates_def sorted_wrt_rev)
qed

lemma map_insort_key: "map f (insort_key f x xs) = insort (f x) (map f xs)"
  by (induction xs) simp_all

lemma map_sort_key: "map f (sort_key f xs) = sort (map f xs)"
  by (induction xs) (simp_all add: map_insort_key)

lemma spendCandidates_amounts:
  "map amount (spendCandidates fetched) = rev (sort (map amount fetched))"
  by (simp add: spendCandidates_def map_sort_key flip: rev_map)

text \<open>
  C5. Whenever the external builder is invoked, the candidates it receives are the
  UTXOs the provider returned, stably sorted by amount and reversed: a permutation of the
  fetched list in descending order of amount. Conversely, when the provider returns a
  list, the builder has been invoked with that list so ordered as soon as the task has
  resumed twice. The witness hands amounts 5, 3, 10, 1 (times \<open>10\<^sup>8\<close>) over as
  10, 5, 3, 1, as any list of UTXOs with these amounts is.
\<close>

theorem builder_receives_candidates_largest_first:
  "(CallBuilder req \<in> set (trace (exec sv (sendSats h to v asset options t0) sched)) \<longrightarrow>
      (\<exists>fetched t1.
         getUTXOs sv (testnet h) (address h asset) (options_confirmations options) t0 = (Inr fetched, t1) \<and>
         req_utxos req = rev (sort_key amount fetched) \<and>
         sorted_wrt (\<lambda>a b. amount b \<le> amount a) (req_utxos req) \<and>
         mset (req_utxos req) = mset fetched \<and>
         map amount (req_utxos req) = rev (sort (map amount fetched)))) \<and>
   (getUTXOs sv (testnet h) (address h asset) (options_confirmations options) t0 = (Inr fetched', t1') \<and>
    2 \<le> count_list sched Task \<longrightarrow>
      (\<exists>r. CallBuilder r \<in> set (trace (exec sv (sendSats h to v asset options t0) sched)) \<and>
           req_utxos r = rev (sort_key amount fetched'))) \<and>
   (map amount fetched' = [500000000, 300000000, 1000000000, 100000000] \<longrightarrow>
      map amount (spendCandidates fetched') = [1000000000, 500000000, 300000000, 100000000])"
proof -
  let ?i = "sendSats h to v asset options t0"
  let ?s = "exec sv ?i sched"
  have inv: "lifecycle_inv sv ?i ?s" by (rule inv_run)
  have fo: "fetched_of sv ?i = getUTXOs sv (testnet h) (address h asset) (options_confirmations options) t0"
    by (simp add: fetched_of_def sendSats_def subscribeToConfirmations_def address_def)
  have ru: "req_utxos (request_of ?i fetched) = spendCandidates fetched" for fetched
    by (simp add: request_of_def builder_request_def)
  have a: "\<exists>fetched t1.
         getUTXOs sv (testnet h) (address h asset) (options_confirmations options) t0 = (Inr fetched, t1) \<and>
         req_utxos req = rev (sort_key amount fetched) \<and>
         sorted_wrt (\<lambda>a b. amount b \<le> amount a) (req_utxos req) \<and>
         mset (req_utxos req) = mset fetched \<and>
         map amount (req_utxos req) = rev (sort (map amount fetched))"
    if "CallBuilder req \<in> set (trace ?s)"
  proof -
    from builder_calls [OF inv that] obtain fetched t1 where
      f: "fetched_of sv ?i = (Inr fetched, t1)" and r: "req = request_of ?i fetched"
      by blast
    have u: "req_utxos req = spendCandidates fetched" unfolding r by (rule ru)
    have "sorted_wrt (\<lambda>a b. amount b \<le> amount a) (req_utxos req)"
      unfolding u by (rule spendCandidates_descending)
    moreover have "mset (req_utxos req) = mset fetched"
      unfolding u by (simp add: spendCandidates_def)
    moreover have "map amount (req_utxos req) = rev (sort (map amount fetched))"
      unfolding u by (rule spendCandidates_amounts)
    ultimately show ?thesis using f u by (auto simp: fo spendCandidates_def)
  qed
  have b: "\<exists>r. CallBuilder r \<in> set (trace ?s) \<and> req_utxos r = rev (sort_key amount fetched')"
    if g: "getUTXOs sv (testnet h) (address h asset) (options_confirmations options) t0 = (Inr fetched', t1')"
      and c: "2 \<le> count_list sched Task"
  proof -
    have f: "fetched_of sv ?i = (Inr fetched', t1')" using g by (simp add: fo)
    have "awaits_left (pc ?s) \<le> 2"
      using exec_progress [of sv ?i sched] c
      by (simp add: sendSats_def subscribeToConfirmations_def)
    then have "CallBuilder (request_of ?i fetched') \<in> set (trace ?s)"
      using inv f
      by (cases "pc ?s"; cases "task_of sv ?i") (auto simp: lifecycle_inv_def)
    then show ?thesis using ru [of fetched'] by (auto simp: spendCandidates_def)
  qed
  have c: "map amount (spendCandidates fetched') = [1000000000, 500000000, 300000000, 100000000]"
    if "map amount fetched' = [500000000, 300000000, 1000000000, 100000000]"
    by (simp add: spendCandidates_amounts that)
  from a b c show ?thesis by blast
qed

lemma example_builder_call:
  "CallBuilder example_request \<in> set (trace (exec example_services
      (sendSats example_handler ''Lreceiver'' 150000000 (AssetString ''LTC'') None 0) [Task, Task]))"
  by code_simp

lemma example_fetch:
  "getUTXOs example_services (testnet example_handler) (address example_handler (AssetString ''LTC''))
     (options_confirmations None) 0 = (Inr example_utxos, 1)"
  by code_simp

theorem builder_receives_candidates_largest_first_witness:
  "CallBuilder example_request \<in> set (trace (exec example_services
      (sendSats example_handler ''Lreceiver'' 150000000 (AssetString ''LTC'') None 0) [Task, Task]))
   \<and> map amount example_utxos = [500000000, 300000000, 1000000000, 100000000]
   \<and> req_utxos example_request = rev (sort_key amount example_utxos)
   \<and> map amount (req_utxos example_request) = [1000000000, 500000000, 300000000, 100000000]"
proof -
  from builder_receives_candidates_largest_first [of example_request example_services
      example_handler "''Lreceiver''" 150000000 "AssetString ''LTC''" None 0 "[Task, Task]"]
    example_builder_call
  have "req_utxos example_request = rev (sort_key amount example_utxos)"
    by (simp add: example_fetch)
  moreover have "map amount example_utxos = [500000000, 300000000, 1000000000, 100000000]"
    by (simp add: example_utxos_def example_utxo_def)
  moreover have "map amount (req_utxos example_request) = [1000000000, 500000000, 300000000, 100000000]"
    by (simp add: example_request_def example_utxo_def)
  ultimately show ?thesis using example_builder_call by simp
qed

section \<open>Balance\<close>

lemma round_half_up_of_int: "round_half_up (of_int m) = m"
  unfolding round_half_up_def by (simp add: floor_eq_iff)

lemma bn_dividedBy_of_int: "bn_dividedBy (of_int k) (10 ^ decimals) = of_int k / 10 ^ 8"
proof -
  have "(of_int k :: rat) / 10 ^ 8 * 10 ^ 20 = of_int (k * 10 ^ 12)" by simp
  then have "round_half_up ((of_int k :: rat) / 10 ^ 8 * 10 ^ 20) = k * 10 ^ 12"
    by (simp only: round_half_up_of_int)
  then show ?thesis by (simp add: bn_dividedBy_def decimals_def)
qed

lemma sumSats_sum_list: "sumSats utxos = of_int (sum_list (map amount utxos))"
proof -
  have "foldl (\<lambda>sum utxo. bn_plus sum (of_int (amount utxo))) a utxos
          = a + of_int (sum_list (map amount utxos))" for a
    by (induction utxos arbitrary: a) (simp_all add: bn_plus_def)
  then show ?thesis by (simp add: sumSats_def)
qed

text \<open>
  C6. For every list of UTXOs the provider returns, \<^verbatim>\<open>getBalanceInSats\<close> is the
  exact integer sum of their amounts and \<^verbatim>\<open>getBalance\<close> is that sum divided by
  \<open>10\<^sup>8\<close>, exactly: the rounding of \<^verbatim>\<open>dividedBy\<close> to 20 decimal places never
  changes a quotient with 8 fractional digits.
\<close>

theorem getBalance_exact:
  assumes "fst (getUTXOs sv (testnet h) (balance_address h asset options)
                  (options_confirmations options) t) = Inr utxos"
  shows "getBalanceInSats h sv asset options t = Inr (of_int (sum_list (map amount utxos))) \<and>
         getBalance h sv asset options t = Inr (of_int (sum_list (map amount utxos)) / 10 ^ 8)"
  using assms
  by (simp add: getBalance_def getBalanceInSats_def sumSats_sum_list bn_dividedBy_of_int)

lemma example_balance_fetch:
  "fst (getUTXOs example_services (testnet example_handler)
          (balance_address example_handler (AssetString ''LTC'') None)
          (options_confirmations None) 0) = Inr example_utxos"
  by code_simp

theorem getBalance_exact_witness:
  "fst (getUTXOs example_services (testnet example_handler)
          (balance_address example_handler (AssetString ''LTC'') None)
          (options_confirmations None) 0) = Inr example_utxos \<and>
   getBalanceInSats example_handler example_services (AssetString ''LTC'') None 0 = Inr 1900000000 \<and>
   getBalance example_handler example_services (AssetString ''LTC'') None 0 = Inr 19"
  using getBalance_exact [OF example_balance_fetch] example_balance_fetch
  by (simp add: example_utxos_def example_utxo_def)

lemma sum_list_amount_mset:
  assumes "mset utxos' = mset utxos"
  shows "sum_list (map amount utxos') = sum_list (map amount utxos)"
proof -
  have "mset (map amount utxos') = mset (map amount utxos)"
    using assms by (metis mset_map)
  then show ?thesis by (metis sum_mset_sum_list)
qed

text \<open>
  C7. The balance in smallest units does not depend on the order in which the provider
  returns the UTXOs: two queries whose answers are permutations of one another give the
  same \<^verbatim>\<open>getBalanceInSats\<close>, and amounts 5, 3, 10, 1 (times \<open>10\<^sup>8\<close>) sum to
  1900000000 in any order.
\<close>

theorem balance_sum_order_independent:
  assumes "fst (getUTXOs sv (testnet h) (balance_address h asset options)
                  (options_confirmations options) t) = Inr utxos"
    and "fst (getUTXOs sv' (testnet h') (balance_address h' asset' options')
                  (options_confirmations options') t') = Inr utxos'"
    and "mset utxos' = mset utxos"
  shows "getBalanceInSats h' sv' asset' options' t' = getBalanceInSats h sv asset options t \<and>
         (mset (map amount utxos) = mset [500000000, 300000000, 1000000000, 100000000] \<longrightarrow>
            getBalanceInSats h' sv' asset' options' t' = Inr 1900000000)"
proof -
  have a: "getBalanceInSats h sv asset options t = Inr (of_int (sum_list (map amount utxos)))"
    using assms(1) by (simp add: getBalanceInSats_def sumSats_sum_list)
  have b: "getBalanceInSats h' sv' asset' options' t' = Inr (of_int (sum_list (map amount utxos')))"
    using assms(2) by (simp add: getBalanceInSats_def sumSats_sum_list)
  have c: "sum_list (map amount utxos') = sum_list (map amount utxos)"
    by (rule sum_list_amount_mset [OF assms(3)])
  have d: "sum_list (map amount utxos) = 1900000000"
    if "mset (map amount utxos) = mset [500000000, 300000000, 1000000000, 100000000]"
  proof -
    have "sum_mset (mset (map amount utxos)) = sum_mset (mset [500000000, 300000000, 1000000000, 100000000 :: int])"
      using that by simp
    then show ?thesis by (simp only: sum_mset_sum_list) simp
  qed
  show ?thesis using a b c d by simp
qed

lemma reversed_balance_fetch:
  "fst (getUTXOs reversed_services (testnet example_handler)
          (balance_address example_handler (AssetString ''LTC'') None)
          (options_confirmations None) 0) = Inr (rev example_utxos)"
  by code_simp

lemma example_amounts:
  "mset (map amount example_utxos) = mset [500000000, 300000000, 1000000000, 100000000]"
  by (simp add: example_utxos_def example_utxo_def)

theorem balance_sum_order_independent_witness:
  "map amount (rev example_utxos) = [100000000, 1000000000, 300000000, 500000000] \<and>
   getBalanceInSats example_handler reversed_services (AssetString ''LTC'') None 0
     = getBalanceInSats example_handler example_services (AssetString ''LTC'') None 0 \<and>
   getBalanceInSats example_handler reversed_services (AssetString ''LTC'') None 0 = Inr 1900000000"
proof -
  have "mset (rev example_utxos) = mset example_utxos" by simp
  from balance_sum_order_independent [OF example_balance_fetch reversed_balance_fetch this] example_amounts
  have "getBalanceInSats example_handler reversed_services (AssetString ''LTC'') None 0
          = getBalanceInSats example_handler example_services (AssetString ''LTC'') None 0"
    and "getBalanceInSats example_handler reversed_services (AssetString ''LTC'') None 0 = Inr 1900000000"
    by blast+
  moreover have "map amount (rev example_utxos) = [100000000, 1000000000, 300000000, 500000000]"
    by (simp add: example_utxos_def example_utxo_def)
  ultimately show ?thesis by (simp only: simp_thms)
qed

section \<open>Conversion at the public boundary\<close>

lemma isInteger_iff: "isInteger q \<longleftrightarrow> (\<exists>k. q = of_int k)"
proof
  assume "isInteger q"
  then have "q = of_int \<lfloor>q\<rfloor>" unfolding isInteger_def by (rule sym)
  then show "\<exists>k. q = of_int k" ..
next
  assume "\<exists>k. q = of_int k"
  then obtain k where "q = of_int k" ..
  then show "isInteger q" by (simp add: isInteger_def)
qed

lemma isInteger_scaled: "isInteger (val * 10 ^ 8) \<longleftrightarrow> (\<exists>k. val = of_int k / 10 ^ 8)"
proof -
  have "val * 10 ^ 8 = of_int k \<longleftrightarrow> val = of_int k / 10 ^ 8" for k
    by (simp add: field_simps)
  then show ?thesis by (simp only: isInteger_iff)
qed

text \<open>
  C8, as amended. \<^verbatim>\<open>send\<close> is \<^verbatim>\<open>sendSats\<close> on the value times \<open>10\<^sup>8\<close>,
  exactly and without rounding: the conversion happens once, at the public boundary. The
  converted value is never changed afterwards, and every request the builder receives
  carries it. That quantity is an integer number of smallest units exactly when the
  value sent is a whole multiple of \<open>10\<^sup>-\<^sup>8\<close>, that is, has at most 8 fractional
  digits.
\<close>

theorem send_scales_value_once:
  "send h to val asset options t0 = sendSats h to (val * 10 ^ 8) asset options t0 \<and>
   arg_valueIn (exec sv (send h to val asset options t0) sched) = val * 10 ^ 8 \<and>
   (CallBuilder req \<in> set (trace (exec sv (send h to val asset options t0) sched)) \<longrightarrow>
      req_value req = val * 10 ^ 8 \<and>
      (isInteger (req_value req) \<longleftrightarrow> (\<exists>k. val = of_int k / 10 ^ 8)))"
proof -
  let ?i = "sendSats h to (val * 10 ^ 8) asset options t0"
  have s: "send h to val asset options t0 = ?i"
    by (simp add: send_def bn_times_def decimals_def)
  have inv: "lifecycle_inv sv ?i (exec sv ?i sched)" by (rule inv_run)
  then have a: "arg_valueIn (exec sv ?i sched) = val * 10 ^ 8"
    by (simp add: lifecycle_inv_def frame_def sendSats_def subscribeToConfirmations_def)
  have b: "req_value req = val * 10 ^ 8 \<and>
           (isInteger (req_value req) \<longleftrightarrow> (\<exists>k. val = of_int k / 10 ^ 8))"
    if "CallBuilder req \<in> set (trace (exec sv ?i sched))"
  proof -
    have "req_value req = val * 10 ^ 8"
      using builder_calls [OF inv that]
      by (auto simp: request_of_def builder_request_def sendSats_def subscribeToConfirmations_def)
    then show ?thesis by (simp only: isInteger_scaled simp_thms)
  qed
  from a b show ?thesis unfolding s by blast
qed

lemma example_send_builder_call:
  "CallBuilder example_request \<in> set (trace (exec example_services
      (send example_handler ''Lreceiver'' (3 / 2) (AssetString ''LTC'') None 0) [Task, Tick, Task]))"
  by code_simp

theorem send_scales_value_once_witness:
  "CallBuilder example_request \<in> set (trace (exec example_services
      (send example_handler ''Lreceiver'' (3 / 2) (AssetString ''LTC'') None 0) [Task, Tick, Task])) \<and>
   req_value example_request = 3 / 2 * 10 ^ 8 \<and> req_value example_request = 150000000 \<and>
   isInteger (req_value example_request)"
proof -
  have k: "(3 / 2 :: rat) = of_int 150000000 / 10 ^ 8" by simp
  from send_scales_value_once [of example_handler "''Lreceiver''" "3 / 2" "AssetString ''LTC''" None 0
      example_services "[Task, Tick, Task]" example_request] example_send_builder_call
  have "req_value example_request = 3 / 2 * 10 ^ 8"
    and "isInteger (req_value example_request) \<longleftrightarrow> (\<exists>k. (3 / 2 :: rat) = of_int k / 10 ^ 8)"
    by blast+
  moreover have "\<exists>k. (3 / 2 :: rat) = of_int k / 10 ^ 8" using k by blast
  moreover have "req_value example_request = 150000000" by (simp add: example_request_def)
  ultimately show ?thesis using example_send_builder_call by blast
qed

lemma three_halves_not_integer: "\<not> isInteger (3 / 2)"
proof -
  have "\<lfloor>3 / 2 :: rat\<rfloor> = 1" by (simp add: floor_eq_iff)
  then show ?thesis by (simp add: isInteger_def)
qed

text \<open>
  The wording of C8, that for every decimal value the downstream logic operates on an
  integer quantity, does not hold: sending 0.000000015 hands the builder a request for
  one and a half smallest units.
\<close>

theorem send_passes_fraction_of_smallest_unit:
  "CallBuilder fractional_request \<in> set (trace (exec example_services
      (send example_handler ''Lreceiver'' (3 / 200000000) (AssetString ''LTC'') None 0) [Task, Task])) \<and>
   req_value fractional_request = 3 / 2 \<and>
   \<not> isInteger (req_value fractional_request)"
proof -
  have "CallBuilder fractional_request \<in> set (trace (exec example_services
      (send example_handler ''Lreceiver'' (3 / 200000000) (AssetString ''LTC'') None 0) [Task, Task]))"
    by code_simp
  moreover have v: "req_value fractional_request = 3 / 2"
    by (simp add: fractional_request_def)
  moreover have "\<not> isInteger (req_value fractional_request)"
    unfolding v by (rule three_halves_not_integer)
  ultimately show ?thesis by (simp only: simp_thms)
qed

section \<open>Broadcast\<close>

lemma fallback_single:
  "fallback [ep] t = (case ep t of Inr v \<Rightarrow> (Inr v, Suc t) | Inl e \<Rightarrow> (Inl (AggregatedError [e]), Suc t))"
  by (simp add: fallback_def split: sum.splits)

lemma retry_three_clock:
  assumes "\<And>t. snd (operation t) = Suc t"
  shows "t < snd (retryNTimes operation 3 t) \<and> snd (retryNTimes operation 3 t) \<le> t + 3"
proof -
  have s: "operation u = (r, u') \<Longrightarrow> u' = Suc u" for u r u'
    using assms [of u] by simp
  show ?thesis
    by (auto simp: retryNTimes_def numeral_3_eq_3 split: prod.splits sum.splits dest!: s)
qed

text \<open>
  C9. When a send has reached the broadcasting step with the transaction \<open>b\<close> the
  builder returned, the task's next resumption is decided by the retry wrapper, with
  attempt ceiling 3, applied to the fallback dispatch over the broadcast endpoints for
  the hex of \<open>b\<close>; those endpoints are the single Sochain endpoint for the handler's
  network. Between one and three provider submissions are made.
\<close>

theorem broadcast_is_retry_of_fallback:
  assumes "pc (exec sv (sendSats h to v asset options t0) sched) = AwaitBroadcast b"
  shows "(\<exists>fetched. BitgoUTXOLib_buildUTXO sv
              (builder_request (sendSats h to v asset options t0) (address h asset)
                 (spendCandidates fetched)) = Inr b) \<and>
         step sv (exec sv (sendSats h to v asset options t0) sched) Task =
           (case retryNTimes
                   (fallback (apiFallbacks_broadcastTransaction sv (testnet h) (toHex b)))
                   3 (clock (exec sv (sendSats h to v asset options t0) sched)) of
              (Inl e, t') \<Rightarrow> catch e (exec sv (sendSats h to v asset options t0) sched\<lparr>clock := t'\<rparr>)
            | (Inr hash, t') \<Rightarrow>
                resolve hash (emit (TransactionHash hash)
                  (exec sv (sendSats h to v asset options t0) sched
                     \<lparr>txHash := Some hash, clock := t', pc := Finished\<rparr>))) \<and>
         apiFallbacks_broadcastTransaction sv (testnet h) (toHex b)
           = [Sochain_broadcastTransaction sv (network_name (testnet h)) (toHex b)] \<and>
         clock (exec sv (sendSats h to v asset options t0) sched)
           < clock (step sv (exec sv (sendSats h to v asset options t0) sched) Task) \<and>
         clock (step sv (exec sv (sendSats h to v asset options t0) sched) Task)
           \<le> clock (exec sv (sendSats h to v asset options t0) sched) + 3"
proof -
  let ?i = "sendSats h to v asset options t0"
  let ?s = "exec sv ?i sched"
  let ?op = "fallback (apiFallbacks_broadcastTransaction sv (testnet h) (toHex b))"
  have inv: "lifecycle_inv sv ?i ?s" by (rule inv_run)
  have self: "self ?s = h"
    using inv by (simp add: lifecycle_inv_def frame_def sendSats_def subscribeToConfirmations_def)
  have built: "\<exists>fetched. BitgoUTXOLib_buildUTXO sv
              (builder_request ?i (address h asset) (spendCandidates fetched)) = Inr b"
    using inv assms
    by (auto simp: lifecycle_inv_def request_of_def sendSats_def subscribeToConfirmations_def address_def)
  have stp: "step sv ?s Task =
           (case retryNTimes ?op 3 (clock ?s) of
              (Inl e, t') \<Rightarrow> catch e (?s\<lparr>clock := t'\<rparr>)
            | (Inr hash, t') \<Rightarrow>
                resolve hash (emit (TransactionHash hash)
                  (?s\<lparr>txHash := Some hash, clock := t', pc := Finished\<rparr>)))"
    using assms self by (simp add: task_step_def)
  have one: "snd (?op t) = Suc t" for t
    by (simp add: apiFallbacks_broadcastTransaction_def fallback_single split: sum.splits)
  have clk: "clock (step sv ?s Task) = snd (retryNTimes ?op 3 (clock ?s))"
    unfolding stp
    by (simp add: catch_def reject_def resolve_def emit_def split: prod.splits sum.splits)
  from retry_three_clock [of ?op, OF one, of "clock ?s"] built stp clk
  show ?thesis
    by (simp add: apiFallbacks_broadcastTransaction_def)
qed

lemma example_at_broadcast:
  "pc (exec example_services
      (sendSats example_handler ''Lreceiver'' 150000000 (AssetString ''LTC'') None 0)
      [Task, Task, Tick, Task]) = AwaitBroadcast (Built ''0100'')"
  by code_simp

lemma example_broadcast_outcome:
  "outcome (step example_services (exec example_services
      (sendSats example_handler ''Lreceiver'' 150000000 (AssetString ''LTC'') None 0)
      [Task, Task, Tick, Task]) Task) = Resolved ''f00d''"
  by code_simp

theorem broadcast_is_retry_of_fallback_witness:
  "pc (exec example_services
      (sendSats example_handler ''Lreceiver'' 150000000 (AssetString ''LTC'') None 0)
      [Task, Task, Tick, Task]) = AwaitBroadcast (Built ''0100'') \<and>
   outcome (step example_services (exec example_services
      (sendSats example_handler ''Lreceiver'' 150000000 (AssetString ''LTC'') None 0)
      [Task, Task, Tick, Task]) Task) = Resolved ''f00d'' \<and>
   clock (step example_services (exec example_services
      (sendSats example_handler ''Lreceiver'' 150000000 (AssetString ''LTC'') None 0)
      [Task, Task, Tick, Task]) Task)
    \<le> clock (exec example_services
      (sendSats example_handler ''Lreceiver'' 150000000 (AssetString ''LTC'') None 0)
      [Task, Task, Tick, Task]) + 3"
  using broadcast_is_retry_of_fallback [OF example_at_broadcast] example_at_broadcast
    example_broadcast_outcome
  by blast

section \<open>Asset check\<close>

lemma indexOf_from_member: "0 \<le> i \<Longrightarrow> indexOf_from i xs x \<noteq> -1 \<longleftrightarrow> x \<in> set xs"
  by (induction i xs x rule: indexOf_from.induct) auto

text \<open>
  C10. \<^verbatim>\<open>handlesAsset\<close> is true exactly for a string whose upper-cased form is
  \<^verbatim>\<open>LTC\<close> or \<^verbatim>\<open>LITECOIN\<close>; it is false for every other string, such as
  \<^verbatim>\<open>ltc2\<close> and \<^verbatim>\<open>BTC\<close>, and for every value that is not a string. It is a
  total function: the type test guards the call of \<^verbatim>\<open>toUpperCase\<close>.
\<close>

theorem handlesAsset_iff:
  "handlesAsset asset =
     (case asset of
        AssetString s \<Rightarrow> toUpperCase s = ''LTC'' \<or> toUpperCase s = ''LITECOIN''
      | AssetOther \<Rightarrow> False) \<and>
   handlesAsset (AssetString ''ltc'') \<and> handlesAsset (AssetString ''Litecoin'') \<and>
   \<not> handlesAsset (AssetString ''ltc2'') \<and> \<not> handlesAsset (AssetString ''BTC'') \<and>
   \<not> handlesAsset AssetOther"
proof -
  have g: "handlesAsset asset =
     (case asset of
        AssetString s \<Rightarrow> toUpperCase s = ''LTC'' \<or> toUpperCase s = ''LITECOIN''
      | AssetOther \<Rightarrow> False)"
    by (cases asset) (auto simp: handlesAsset_def indexOf_def indexOf_from_member simp del: indexOf_from.simps)
  have "handlesAsset (AssetString ''ltc'')" by code_simp
  moreover have "handlesAsset (AssetString ''Litecoin'')" by code_simp
  moreover have "\<not> handlesAsset (AssetString ''ltc2'')" by code_simp
  moreover have "\<not> handlesAsset (AssetString ''BTC'')" by code_simp
  moreover have "\<not> handlesAsset AssetOther" by (simp add: handlesAsset_def)
  ultimately show ?thesis using g by simp
qed

end
